theory Spec2Isabelle
  imports Complex_Main
begin

section \<open>Scalars: doubles as real numbers with the IEEE special values\<close>

text \<open>
  The source computes in \<^verbatim>\<open>double\<close> (\<^verbatim>\<open>typedef double Scalar\<close>). A scalar is
  modelled as a real number or one of the three IEEE special values: plus
  infinity, minus infinity and not-a-number. On the special values the
  arithmetic follows IEEE 754. On finite values it keeps of IEEE rounding
  what changes a result in kind, and is exact otherwise:
  \<^item> a result whose magnitude reaches \<open>2^1024 - 2^970\<close>, the least magnitude
    that rounds beyond the largest double, is an infinity (overflow);
  \<^item> a product, a quotient, a power or a value of \<^verbatim>\<open>exp\<close> or \<^verbatim>\<open>erf\<close> whose
    magnitude is at most \<open>2^-1075\<close>, half the least positive double, is zero
    (underflow); a sum of two doubles is a multiple of the least positive
    double and never underflows;
  \<^item> \<^verbatim>\<open>exp\<close> is exactly 1 near 0 and \<^verbatim>\<open>erf\<close> is exactly 1 or \<open>- 1\<close> far from
    0 (see below).
  The rounding of a result to 53 significant bits is not modelled. There is
  a single zero, which divides like the positive zero of IEEE: \<open>x / 0\<close> is an
  infinity with the sign of \<open>x\<close>, and \<open>0 / 0\<close> is not-a-number; the double
  \<open>- 0.0\<close> is not represented.
\<close>

datatype scalar = Fin real | PInf | NInf | NaN

definition overflow_threshold :: real where
  "overflow_threshold = 2 ^ 1024 - 2 ^ 970"

definition underflow_threshold :: real where
  "underflow_threshold = 1 / 2 ^ 1075"

definition overflow :: "real \<Rightarrow> scalar" where
  "overflow x =
     (if overflow_threshold \<le> x then PInf
      else if x \<le> - overflow_threshold then NInf
      else Fin x)"

definition round_range :: "real \<Rightarrow> scalar" where
  "round_range x = (if \<bar>x\<bar> \<le> underflow_threshold then Fin 0 else overflow x)"

instantiation scalar :: "{zero, one, plus, minus, uminus, times, inverse, ord}"
begin

definition zero_scalar :: scalar where "0 = Fin 0"

definition one_scalar :: scalar where "1 = Fin 1"

fun plus_scalar :: "scalar \<Rightarrow> scalar \<Rightarrow> scalar" where
  "NaN + y = NaN"
| "x + NaN = NaN"
| "Fin a + Fin b = overflow (a + b)"
| "Fin a + PInf = PInf"
| "Fin a + NInf = NInf"
| "PInf + Fin b = PInf"
| "PInf + PInf = PInf"
| "PInf + NInf = NaN"
| "NInf + Fin b = NInf"
| "NInf + NInf = NInf"
| "NInf + PInf = NaN"

fun uminus_scalar :: "scalar \<Rightarrow> scalar" where
  "- Fin a = Fin (- a)"
| "- PInf = NInf"
| "- NInf = PInf"
| "- NaN = NaN"

definition minus_scalar :: "scalar \<Rightarrow> scalar \<Rightarrow> scalar" where
  "(x::scalar) - y = x + (- y)"

fun times_scalar :: "scalar \<Rightarrow> scalar \<Rightarrow> scalar" where
  "NaN * y = NaN"
| "x * NaN = NaN"
| "Fin a * Fin b = round_range (a * b)"
| "Fin a * PInf = (if a = 0 then NaN else if 0 < a then PInf else NInf)"
| "Fin a * NInf = (if a = 0 then NaN else if 0 < a then NInf else PInf)"
| "PInf * Fin b = (if b = 0 then NaN else if 0 < b then PInf else NInf)"
| "NInf * Fin b = (if b = 0 then NaN else if 0 < b then NInf else PInf)"
| "PInf * PInf = PInf"
| "PInf * NInf = NInf"
| "NInf * PInf = NInf"
| "NInf * NInf = PInf"

fun divide_scalar :: "scalar \<Rightarrow> scalar \<Rightarrow> scalar" where
  "divide_scalar NaN y = NaN"
| "divide_scalar x NaN = NaN"
| "divide_scalar (Fin a) (Fin b) =
     (if b \<noteq> 0 then round_range (a / b)
      else if a = 0 then NaN else if 0 < a then PInf else NInf)"
| "divide_scalar (Fin a) PInf = Fin 0"
| "divide_scalar (Fin a) NInf = Fin 0"
| "divide_scalar PInf (Fin b) = (if 0 \<le> b then PInf else NInf)"
| "divide_scalar NInf (Fin b) = (if 0 \<le> b then NInf else PInf)"
| "divide_scalar PInf PInf = NaN"
| "divide_scalar PInf NInf = NaN"
| "divide_scalar NInf PInf = NaN"
| "divide_scalar NInf NInf = NaN"

definition inverse_scalar :: "scalar \<Rightarrow> scalar" where
  "inverse_scalar x = divide (1::scalar) x"

text \<open>Comparisons are those of IEEE: every comparison with not-a-number is false.\<close>

fun less_eq_scalar :: "scalar \<Rightarrow> scalar \<Rightarrow> bool" where
  "NaN \<le> y = False"
| "x \<le> NaN = False"
| "Fin a \<le> Fin b = (a \<le> b)"
| "Fin a \<le> PInf = True"
| "Fin a \<le> NInf = False"
| "PInf \<le> Fin b = False"
| "PInf \<le> PInf = True"
| "PInf \<le> NInf = False"
| "NInf \<le> y = True"

fun less_scalar :: "scalar \<Rightarrow> scalar \<Rightarrow> bool" where
  "NaN < y = False"
| "x < NaN = False"
| "Fin a < Fin b = (a < b)"
| "Fin a < PInf = True"
| "Fin a < NInf = False"
| "PInf < y = False"
| "NInf < Fin b = True"
| "NInf < PInf = True"
| "NInf < NInf = False"

instance ..

end

subsection \<open>The functions of \<^verbatim>\<open>cmath\<close> the source calls\<close>

fun isinf :: "scalar \<Rightarrow> bool" where
  "isinf PInf = True"
| "isinf NInf = True"
| "isinf (Fin a) = False"
| "isinf NaN = False"

text \<open>
  The exponential of a double. Within half a unit in the last place of 1,
  that is for \<open>- 2^-54 \<le> x < 2^-53\<close>, \<open>exp x\<close> rounds to exactly 1, so that
  \<^verbatim>\<open>exp(x) - 1\<close> is zero there; \<open>exp_fl\<close> is the real function with this
  plateau.
\<close>

definition exp_fl :: "real \<Rightarrow> real" where
  "exp_fl x = (if - (1 / 2 ^ 54) \<le> x \<and> x < 1 / 2 ^ 53 then 1 else exp x)"

fun exp_d :: "scalar \<Rightarrow> scalar" where
  "exp_d (Fin a) = round_range (exp_fl a)"
| "exp_d PInf = PInf"
| "exp_d NInf = Fin 0"
| "exp_d NaN = NaN"

text \<open>
  The logarithm, the square root and the sine of a double neither overflow
  nor underflow.
\<close>

fun log_d :: "scalar \<Rightarrow> scalar" where
  "log_d (Fin a) = (if 0 < a then Fin (ln a) else if a = 0 then NInf else NaN)"
| "log_d PInf = PInf"
| "log_d NInf = NaN"
| "log_d NaN = NaN"

fun sqrt_d :: "scalar \<Rightarrow> scalar" where
  "sqrt_d (Fin a) = (if 0 \<le> a then Fin (sqrt a) else NaN)"
| "sqrt_d PInf = PInf"
| "sqrt_d NInf = NaN"
| "sqrt_d NaN = NaN"

fun sin_d :: "scalar \<Rightarrow> scalar" where
  "sin_d (Fin a) = Fin (sin a)"
| "sin_d PInf = NaN"
| "sin_d NInf = NaN"
| "sin_d NaN = NaN"

text \<open>\<^verbatim>\<open>pow(x, n)\<close> for a natural exponent; \<^verbatim>\<open>pow(x, 0)\<close> is 1 for every \<open>x\<close>.\<close>

fun pow_d :: "scalar \<Rightarrow> nat \<Rightarrow> scalar" where
  "pow_d (Fin a) n = round_range (a ^ n)"
| "pow_d PInf n = (if n = 0 then Fin 1 else PInf)"
| "pow_d NInf n = (if n = 0 then Fin 1 else if even n then PInf else NInf)"
| "pow_d NaN n = (if n = 0 then Fin 1 else NaN)"

definition M_PI :: scalar where
  "M_PI = Fin pi"

text \<open>
  The error function on the reals, by its Maclaurin series:
  \<open>erf x = 2 / sqrt pi * (\<Sum>k. (-1)^k * x^(2k+1) / (k! * (2k+1)))\<close>. The sum is
  the primitive of \<open>exp (- x\<^sup>2)\<close> that vanishes at 0.
\<close>

definition erf_coeff :: "nat \<Rightarrow> real" where
  "erf_coeff k = (- 1) ^ k / (fact k * (2 * real k + 1))"

definition gauss_primitive :: "real \<Rightarrow> real" where
  "gauss_primitive x = (\<Sum>k. erf_coeff k * x ^ (2 * k + 1))"

definition erf :: "real \<Rightarrow> real" where
  "erf x = 2 / sqrt pi * gauss_primitive x"

text \<open>The same series as a power series in \<open>x\<close>: the even coefficients are 0.\<close>

definition erf_power_coeff :: "nat \<Rightarrow> real" where
  "erf_power_coeff n = (if even n then 0 else erf_coeff ((n - 1) div 2))"

text \<open>
  The error function of a double. From 6 on, \<open>1 - erf x\<close> is below
  \<open>2^-54\<close> and the library returns exactly 1 (and exactly \<open>- 1\<close> up to \<open>- 6\<close>),
  so that \<^verbatim>\<open>1 + erf(x)\<close> is zero there; \<open>erf_fl\<close> is the real function with
  these plateaus. On scalars the function takes its limits at the infinities.
\<close>

definition erf_fl :: "real \<Rightarrow> real" where
  "erf_fl x = (if 6 \<le> x then 1 else if x \<le> - 6 then - 1 else erf x)"

fun erf_d :: "scalar \<Rightarrow> scalar" where
  "erf_d (Fin a) = round_range (erf_fl a)"
| "erf_d PInf = Fin 1"
| "erf_d NInf = Fin (- 1)"
| "erf_d NaN = NaN"

subsection \<open>Computations without overflow and underflow\<close>

text \<open>
  The hypotheses under which a computation on scalars is the computation on
  the reals. A sum is \<open>bounded\<close> when it stays below \<open>2^1000\<close> in magnitude, a
  product, quotient or function value is \<open>safe\<close> when it is zero or between
  \<open>2^-1000\<close> and \<open>2^1000\<close> in magnitude: both keep a wide margin to the
  thresholds of overflow and underflow, so that rounding cannot carry a result
  across them. An operand of a sum that goes into \<^verbatim>\<open>exp\<close> is \<open>moderate\<close>
  when it stays below \<open>2^20\<close> in magnitude, so that its rounding error is
  small in absolute terms.
\<close>

definition bounded :: "real \<Rightarrow> bool" where
  "bounded x \<longleftrightarrow> \<bar>x\<bar> \<le> 2 ^ 1000"

definition safe :: "real \<Rightarrow> bool" where
  "safe x \<longleftrightarrow> x = 0 \<or> (1 / 2 ^ 1000 \<le> \<bar>x\<bar> \<and> \<bar>x\<bar> \<le> 2 ^ 1000)"


text \<open>
  The computation of \<open>sigma = model_sigma + sigma_factor * obs * obs\<close>, for
  parameters that are not negative (a sum of two terms of one sign does not
  cancel).
\<close>

definition sigma_exact :: "real \<Rightarrow> real \<Rightarrow> real \<Rightarrow> bool" where
  "sigma_exact ms sf obs \<longleftrightarrow>
     0 \<le> ms \<and> 0 \<le> sf \<and> safe (sf * obs) \<and> safe (sf * obs * obs)
     \<and> bounded (ms + sf * obs * obs)"

text \<open>The tail term \<open>tail_weight / max_depth\<close>.\<close>

definition tail_exact :: "real \<Rightarrow> real \<Rightarrow> bool" where
  "tail_exact tw md \<longleftrightarrow> md \<noteq> 0 \<and> safe (tw / md)"

text \<open>
  The branch without occlusion at a finite prediction \<open>p\<close>, for the value \<open>s\<close> of
  \<open>sigma\<close>: every intermediate result, in the order of the computation.
\<close>

definition visible_exact :: "real \<Rightarrow> real \<Rightarrow> real \<Rightarrow> real \<Rightarrow> real \<Rightarrow> bool" where
  "visible_exact tw md s p obs \<longleftrightarrow>
     s \<noteq> 0 \<and> tail_exact tw md \<and> bounded (1 - tw) \<and> bounded (p - obs)
     \<and> safe ((p - obs) ^ 2) \<and> safe (2 * s) \<and> safe (2 * s * s)
     \<and> safe ((p - obs) ^ 2 / (2 * s * s))
     \<and> safe (exp_fl (- ((p - obs) ^ 2 / (2 * s * s))))
     \<and> safe ((1 - tw) * exp_fl (- ((p - obs) ^ 2 / (2 * s * s))))
     \<and> safe (sqrt (2 * pi) * s)
     \<and> safe ((1 - tw) * exp_fl (- ((p - obs) ^ 2 / (2 * s * s))) / (sqrt (2 * pi) * s))
     \<and> bounded (tw / md
                + (1 - tw) * exp_fl (- ((p - obs) ^ 2 / (2 * s * s))) / (sqrt (2 * pi) * s))"




section \<open>The range observation model: \<^verbatim>\<open>KinectObserver\<close>\<close>

text \<open>
  The source declares no exception type and no function of it throws. The
  first two error kinds are the ones the specification names; functions that
  the specification says can fail return \<open>error + 'a\<close>, so that "fails with"
  can be stated about them. The third is the failed index assertion of a
  vector access.
\<close>

datatype error = ConfigurationError | NumericalError | IndexOutOfRange

text \<open>
  The members of the class (the source's names end in an underscore). The
  first five are \<^verbatim>\<open>const\<close>; \<open>prediction\<close> and \<open>occlusion\<close> are the context
  that \<^verbatim>\<open>Condition\<close> stores.
\<close>

record KinectObserver =
  exponential_rate :: scalar
  tail_weight :: scalar
  model_sigma :: scalar
  sigma_factor :: scalar
  max_depth :: scalar
  prediction :: scalar
  occlusion :: bool

text \<open>
  The constructor (the defaults of its arguments are 0.01, 0.003, 0.00142478,
  1.0 and 6.0). It initialises the five constant members and checks nothing.
  It leaves \<open>prediction\<close> and \<open>occlusion\<close> uninitialised: their
  content before the first \<^verbatim>\<open>Condition\<close> is whatever the memory holds, the
  last argument here.
\<close>

definition KinectObserver_init ::
  "scalar \<Rightarrow> scalar \<Rightarrow> scalar \<Rightarrow> scalar \<Rightarrow> scalar \<Rightarrow> scalar \<times> bool \<Rightarrow> error + KinectObserver" where
  "KinectObserver_init tail_weight0 model_sigma0 sigma_factor0 half_life_depth max_depth0 uninit =
     Inr \<lparr> exponential_rate = (- log_d (Fin 0.5)) / half_life_depth,
           tail_weight = tail_weight0,
           model_sigma = model_sigma0,
           sigma_factor = sigma_factor0,
           max_depth = max_depth0,
           prediction = fst uninit,
           occlusion = snd uninit \<rparr>"

definition Probability :: "KinectObserver \<Rightarrow> scalar \<Rightarrow> scalar" where
  "Probability k observation =
     (let sigma = model_sigma k + sigma_factor k * observation * observation in
      if \<not> occlusion k then
        (if isinf (prediction k) then
           tail_weight k / max_depth k
         else
           tail_weight k / max_depth k
           + (1 - tail_weight k)
             * exp_d (- (pow_d (prediction k - observation) 2 / (Fin 2 * sigma * sigma)))
             / (sqrt_d (Fin 2 * M_PI) * sigma))
      else
        (if isinf (prediction k) then
           tail_weight k / max_depth k
           + (1 - tail_weight k) * exponential_rate k
             * exp_d (Fin 0.5 * exponential_rate k
                      * (Fin (- 2) * observation + exponential_rate k * sigma * sigma))
         else
           tail_weight k / max_depth k
           + (1 - tail_weight k) * exponential_rate k
             * exp_d (Fin 0.5 * exponential_rate k
                      * (Fin 2 * prediction k - Fin 2 * observation
                         + exponential_rate k * sigma * sigma))
             * (1 + erf_d ((prediction k - observation + exponential_rate k * sigma * sigma)
                           / (sqrt_d (Fin 2) * sigma)))
             / (Fin 2 * (exp_d (prediction k * exponential_rate k) - 1))))"

definition LogProbability :: "KinectObserver \<Rightarrow> scalar \<Rightarrow> error + scalar" where
  "LogProbability k observation = Inr (log_d (Probability k observation))"

definition Condition :: "KinectObserver \<Rightarrow> scalar \<Rightarrow> bool \<Rightarrow> KinectObserver" where
  "Condition k prediction0 occlusion0 = k \<lparr> prediction := prediction0, occlusion := occlusion0 \<rparr>"

text \<open>
  \<^verbatim>\<open>Probability\<close> and \<^verbatim>\<open>LogProbability\<close> are declared \<^verbatim>\<open>const\<close>: a call
  returns its value and leaves the object as it is. A client that puts
  queries to one object, one after the other, is \<open>ask_all\<close>.
\<close>

datatype query = Query_Probability scalar | Query_LogProbability scalar

fun ask :: "KinectObserver \<Rightarrow> query \<Rightarrow> (error + scalar) \<times> KinectObserver" where
  "ask k (Query_Probability observation) = (Inr (Probability k observation), k)"
| "ask k (Query_LogProbability observation) = (LogProbability k observation, k)"

fun ask_all :: "KinectObserver \<Rightarrow> query list \<Rightarrow> (error + scalar) list \<times> KinectObserver" where
  "ask_all k [] = ([], k)"
| "ask_all k (q # qs) =
     (case ask k q of (r, k1) \<Rightarrow> (case ask_all k1 qs of (rs, k2) \<Rightarrow> (r # rs, k2)))"

section \<open>The tracker builder: \<^verbatim>\<open>RotaryTrackerBuilder\<close>\<close>

text \<open>
  Modelled from the spec: the classes \<^verbatim>\<open>KinematicsFromURDF\<close>, \<^verbatim>\<open>JointFilter\<close>
  and \<^verbatim>\<open>Tracker\<close> are declared in headers that are not part of the sources.
  Of the kinematics the builder uses \<^verbatim>\<open>num_joints()\<close> only; a joint filter is
  made from one transition model and one sensor model; the tracker owns the
  sequence of joint filters and the kinematics it is constructed with. The
  transition and sensor models are type parameters.
\<close>

record KinematicsFromURDF =
  num_joints :: int

datatype ('t, 's) JointFilter = JointFilter 't 's

record ('t, 's) Tracker =
  joint_filters :: "('t, 's) JointFilter list"
  tracker_kinematics :: KinematicsFromURDF

text \<open>
  The builder holds the kinematics and the two model builders; of each model
  builder only \<^verbatim>\<open>build(i)\<close> is used, so a model builder is the function that
  \<^verbatim>\<open>build\<close> computes.
\<close>

record ('t, 's) RotaryTrackerBuilder =
  kinematics :: KinematicsFromURDF
  transition_builder :: "int \<Rightarrow> 't"
  sensor_builder :: "int \<Rightarrow> 's"

text \<open>
  The loop \<^verbatim>\<open>for (int i = 0; i < kinematics_->num_joints(); ++i)\<close> of
  \<^verbatim>\<open>create_joint_filters\<close>, with the vector built so far.
\<close>

function create_joint_filters_loop ::
  "('t, 's) RotaryTrackerBuilder \<Rightarrow> int \<Rightarrow> ('t, 's) JointFilter list \<Rightarrow> ('t, 's) JointFilter list" where
  "create_joint_filters_loop b i fs =
     (if i < num_joints (kinematics b) then
        (let transition = transition_builder b i;
             sensor = sensor_builder b i;
             filter0 = JointFilter transition sensor
         in create_joint_filters_loop b (i + 1) (fs @ [filter0]))
      else fs)"
  by pat_completeness auto
termination
  by (relation "measure (\<lambda>(b, i, fs). nat (num_joints (kinematics b) - i))") auto

declare create_joint_filters_loop.simps [simp del]

definition create_joint_filters ::
  "('t, 's) RotaryTrackerBuilder \<Rightarrow> ('t, 's) JointFilter list" where
  "create_joint_filters b = create_joint_filters_loop b 0 []"

definition build :: "('t, 's) RotaryTrackerBuilder \<Rightarrow> ('t, 's) Tracker" where
  "build b =
     (let fs = create_joint_filters b
      in \<lparr> joint_filters = fs, tracker_kinematics = kinematics b \<rparr>)"

section \<open>The emulator's animation: \<^verbatim>\<open>ArmRobotAnimator\<close>\<close>

text \<open>
  \<^verbatim>\<open>animate\<close> takes its two vectors by reference, and nothing keeps a caller
  from passing the same vector twice. The vectors therefore live in a store,
  and \<^verbatim>\<open>current\<close> and \<^verbatim>\<open>next\<close> are addresses in it. Reading or writing a
  coefficient outside a vector fails (the assertion of Eigen's
  \<^verbatim>\<open>operator[]\<close>).
\<close>

type_synonym VectorXd = "scalar list"

type_synonym store = "nat \<Rightarrow> VectorXd"

record ArmRobotAnimator =
  t :: scalar

definition ArmRobotAnimator_init :: ArmRobotAnimator where
  "ArmRobotAnimator_init = \<lparr> t = Fin 0 \<rparr>"

text \<open>
  One loop \<^verbatim>\<open>for (int i = lo; i < hi; ++i) next[i] = current[i] + ...\<close>; \<open>t1\<close>
  is the member \<^verbatim>\<open>t_\<close> after \<^verbatim>\<open>t_ += dt\<close>.
\<close>

function animate_loop ::
  "scalar \<Rightarrow> nat \<Rightarrow> scalar \<Rightarrow> scalar \<Rightarrow> nat \<Rightarrow> int \<Rightarrow> int \<Rightarrow> store \<Rightarrow> error + store" where
  "animate_loop t1 current dt dilation next i hi h =
     (if i < hi then
        (if 0 \<le> i \<and> nat i < length (h current) \<and> nat i < length (h next) then
           animate_loop t1 current dt dilation next (i + 1) hi
             (h (next := (h next)
                  [nat i := h current ! nat i + Fin 0.1 * dt / dilation * sin_d (t1 / dilation)]))
         else Inl IndexOutOfRange)
      else Inr h)"
  by pat_completeness auto
termination
  by (relation "measure (\<lambda>(t1, current, dt, dilation, next, i, hi, h). nat (hi - i))") auto

declare animate_loop.simps [simp del]

definition animate ::
  "ArmRobotAnimator \<Rightarrow> store \<Rightarrow> nat \<Rightarrow> scalar \<Rightarrow> scalar \<Rightarrow> nat \<Rightarrow> error + ArmRobotAnimator \<times> store" where
  "animate a h current dt dilation next =
     (let a1 = a \<lparr> t := t a + dt \<rparr> in
      case animate_loop (t a1) current dt dilation next 6 (6 + 7) h of
        Inl e \<Rightarrow> Inl e
      | Inr h1 \<Rightarrow>
          (case animate_loop (t a1) current dt dilation next (6 + 7 + 8) (6 + 2 * 7 + 8) h1 of
             Inl e \<Rightarrow> Inl e
           | Inr h2 \<Rightarrow> Inr (a1, h2)))"

section \<open>The error function\<close>

text \<open>
  The series converges everywhere and its derivative is \<open>exp (- x\<^sup>2)\<close>.
\<close>

lemma erf_coeff_abs_le: "\<bar>erf_coeff k\<bar> \<le> 1 / fact k"
proof -
  have "\<bar>erf_coeff k\<bar> = 1 / (fact k * (2 * real k + 1))"
    by (simp add: erf_coeff_def abs_mult power_abs)
  also have "\<dots> \<le> 1 / (fact k * 1)"
    by (intro divide_left_mono mult_left_mono) simp_all
  finally show ?thesis by simp
qed

lemma summable_gauss_primitive: "summable (\<lambda>k. erf_coeff k * x ^ (2 * k + 1))"
proof (rule summable_comparison_test)
  have "summable (\<lambda>k. inverse (fact k) * (x\<^sup>2) ^ k)"
    by (rule summable_exp)
  then show "summable (\<lambda>k. \<bar>x\<bar> * (inverse (fact k) * (x\<^sup>2) ^ k))"
    by (rule summable_mult)
  show "\<exists>N. \<forall>k\<ge>N. norm (erf_coeff k * x ^ (2 * k + 1)) \<le> \<bar>x\<bar> * (inverse (fact k) * (x\<^sup>2) ^ k)"
  proof (intro exI allI impI)
    fix k :: nat
    have "norm (erf_coeff k * x ^ (2 * k + 1)) = \<bar>erf_coeff k\<bar> * (\<bar>x\<bar> * (x\<^sup>2) ^ k)"
      by (simp add: abs_mult power_abs power_mult power_even_abs)
    also have "\<dots> \<le> (1 / fact k) * (\<bar>x\<bar> * (x\<^sup>2) ^ k)"
      by (intro mult_right_mono erf_coeff_abs_le) simp
    finally show "norm (erf_coeff k * x ^ (2 * k + 1)) \<le> \<bar>x\<bar> * (inverse (fact k) * (x\<^sup>2) ^ k)"
      by (simp add: field_simps)
  qed
qed

lemma gauss_primitive_sums:
  "(\<lambda>k. erf_coeff k * x ^ (2 * k + 1)) sums gauss_primitive x"
  unfolding gauss_primitive_def by (rule summable_sums [OF summable_gauss_primitive])

lemma gauss_primitive_power_series:
  "(\<lambda>n. erf_power_coeff n * x ^ n) sums gauss_primitive x"
proof -
  have pt: "(if even n then 0 else erf_coeff ((n - 1) div 2) * x ^ (2 * ((n - 1) div 2) + 1))
      = erf_power_coeff n * x ^ n" for n
  proof (cases "even n")
    case True
    then show ?thesis by (simp add: erf_power_coeff_def)
  next
    case False
    then obtain b where n: "n = 2 * b + 1" by (elim oddE)
    show ?thesis by (simp add: n erf_power_coeff_def)
  qed
  have "(\<lambda>n. if even n then 0 else erf_coeff ((n - 1) div 2) * x ^ (2 * ((n - 1) div 2) + 1))
          sums gauss_primitive x"
    by (rule sums_if' [OF gauss_primitive_sums])
  then show ?thesis by (simp only: pt)
qed

lemma gauss_primitive_eq: "gauss_primitive = (\<lambda>x. \<Sum>n. erf_power_coeff n * x ^ n)"
  by (rule ext) (rule sums_unique [OF gauss_primitive_power_series])

lemma diffs_erf_power_coeff_even:
  "diffs erf_power_coeff (2 * b) = (- 1) ^ b / fact b"
proof -
  have nz: "2 * real b + 1 \<noteq> 0"
    by (simp add: add_nonneg_eq_0_iff)
  have "diffs erf_power_coeff (2 * b) = real (Suc (2 * b)) * erf_coeff b"
    by (simp add: diffs_def erf_power_coeff_def)
  also have "\<dots> = (2 * real b + 1) * ((- 1) ^ b / (fact b * (2 * real b + 1)))"
  proof -
    have r: "real (Suc (2 * b)) = 2 * real b + 1" by simp
    show ?thesis by (simp only: r erf_coeff_def)
  qed
  also have "\<dots> = (- 1) ^ b / fact b"
    using nz by (simp add: divide_simps)
  finally show ?thesis .
qed

lemma diffs_erf_power_coeff_odd:
  "odd n \<Longrightarrow> diffs erf_power_coeff n = 0"
  by (simp add: diffs_def erf_power_coeff_def)

lemma exp_minus_square_sums:
  "(\<lambda>n. diffs erf_power_coeff n * x ^ n) sums exp (- x\<^sup>2)"
proof -
  have t: "(- x\<^sup>2) ^ k /\<^sub>R fact k = (- 1) ^ k / fact k * x ^ (2 * k)" for k
  proof -
    have "(- x\<^sup>2) ^ k = (- 1) ^ k * x ^ (2 * k)"
      by (metis power_minus power_mult)
    then show ?thesis by (simp add: field_simps)
  qed
  have "(\<lambda>k. (- x\<^sup>2) ^ k /\<^sub>R fact k) sums exp (- x\<^sup>2)"
    by (rule exp_converges)
  then have e: "(\<lambda>k. (- 1) ^ k / fact k * x ^ (2 * k)) sums exp (- x\<^sup>2)"
    by (simp only: t)
  have "(\<lambda>n. if even n then (- 1) ^ (n div 2) / fact (n div 2) * x ^ (2 * (n div 2))
              else (0::real)) sums (0 + exp (- x\<^sup>2))"
    by (rule sums_if [OF sums_zero e])
  moreover have "(if even n then (- 1) ^ (n div 2) / fact (n div 2) * x ^ (2 * (n div 2)) else 0)
      = diffs erf_power_coeff n * x ^ n" for n
  proof (cases "even n")
    case True
    then obtain b where n: "n = 2 * b" by (elim evenE)
    show ?thesis by (simp only: n diffs_erf_power_coeff_even) simp
  next
    case False
    then show ?thesis by (simp add: diffs_erf_power_coeff_odd)
  qed
  ultimately show ?thesis by simp
qed

lemma DERIV_gauss_primitive:
  "(gauss_primitive has_real_derivative exp (- x\<^sup>2)) (at x)"
proof -
  have "((\<lambda>x. \<Sum>n. erf_power_coeff n * x ^ n) has_real_derivative
          (\<Sum>n. diffs erf_power_coeff n * x ^ n)) (at x)"
    by (rule termdiffs_strong_converges_everywhere)
       (rule sums_summable [OF gauss_primitive_power_series])
  moreover have "(\<Sum>n. diffs erf_power_coeff n * x ^ n) = exp (- x\<^sup>2)"
    by (rule sums_unique [symmetric, OF exp_minus_square_sums])
  ultimately show ?thesis by (simp only: gauss_primitive_eq)
qed

lemma gauss_primitive_0: "gauss_primitive 0 = 0"
  by (simp add: gauss_primitive_def)



lemma gauss_primitive_strict_mono:
  assumes "a < b"
  shows "gauss_primitive a < gauss_primitive b"
proof (rule DERIV_pos_imp_increasing [OF assms])
  fix y :: real
  have "(gauss_primitive has_real_derivative exp (- y\<^sup>2)) (at y)"
    by (rule DERIV_gauss_primitive)
  then show "\<exists>l. (gauss_primitive has_real_derivative l) (at y) \<and> 0 < l"
    by (meson exp_gt_zero)
qed









lemma erf_nonneg: "0 \<le> x \<Longrightarrow> 0 \<le> erf x"
proof -
  assume "0 \<le> x"
  then have "gauss_primitive 0 \<le> gauss_primitive x"
    using gauss_primitive_strict_mono [of 0 x] by (cases "x = 0") simp_all
  then show ?thesis by (simp add: erf_def gauss_primitive_0)
qed

section \<open>Arithmetic without overflow and underflow\<close>

lemma threshold_margins:
  "(2::real) ^ 1000 < overflow_threshold" "underflow_threshold < 1 / 2 ^ 1000"
  by (simp_all add: overflow_threshold_def underflow_threshold_def)

lemma overflow_bounded: "bounded x \<Longrightarrow> overflow x = Fin x"
  using threshold_margins(1) by (auto simp: bounded_def overflow_def)

lemma round_range_safe: "safe x \<Longrightarrow> round_range x = Fin x"
  using threshold_margins by (auto simp: safe_def round_range_def overflow_def)




lemma Fin_plus: "bounded (a + b) \<Longrightarrow> Fin a + Fin b = Fin (a + b)"
  by (simp add: overflow_bounded)

lemma Fin_minus: "bounded (a - b) \<Longrightarrow> Fin a - Fin b = Fin (a - b)"
  by (simp add: minus_scalar_def overflow_bounded)

lemma Fin_times: "safe (a * b) \<Longrightarrow> Fin a * Fin b = Fin (a * b)"
  by (simp add: round_range_safe)

lemma Fin_divide: "b \<noteq> 0 \<Longrightarrow> safe (a / b) \<Longrightarrow> Fin a / Fin b = Fin (a / b)"
  by (simp add: round_range_safe)

lemma one_minus_Fin: "bounded (1 - a) \<Longrightarrow> 1 - Fin a = Fin (1 - a)"
  by (simp add: one_scalar_def Fin_minus)



lemma exp_d_Fin: "safe (exp_fl a) \<Longrightarrow> exp_d (Fin a) = Fin (exp_fl a)"
  by (simp add: round_range_safe)


lemma pow_d_Fin: "safe (a ^ n) \<Longrightarrow> pow_d (Fin a) n = Fin (a ^ n)"
  by (simp add: round_range_safe)

lemma safe_between:
  "lo \<le> x \<Longrightarrow> x \<le> hi \<Longrightarrow> 1 / 2 ^ 1000 \<le> lo \<Longrightarrow> hi \<le> 2 ^ 1000 \<Longrightarrow> safe x"
proof -
  assume a: "lo \<le> x" "x \<le> hi" "1 / 2 ^ 1000 \<le> lo" "hi \<le> 2 ^ 1000"
  have "(0::real) < 1 / 2 ^ 1000" by simp
  with a have "0 < x" by linarith
  with a show "safe x" unfolding safe_def by auto
qed

lemma safe_2pi: "safe (2 * pi)"
  by (rule safe_between [of 4 _ 8]) (use pi_ge_two pi_less_4 in simp_all)

lemma two_pi_value: "Fin 2 * M_PI = Fin (2 * pi)"
  by (simp only: M_PI_def Fin_times [OF safe_2pi])

lemma sqrt_two_pi_value: "sqrt_d (Fin 2 * M_PI) = Fin (sqrt (2 * pi))"
  by (simp add: two_pi_value)

lemma sigma_value:
  "sigma_exact ms sf obs \<Longrightarrow> Fin ms + Fin sf * Fin obs * Fin obs = Fin (ms + sf * obs * obs)"
  unfolding sigma_exact_def by (simp only: Fin_times Fin_plus)

lemma tail_value: "tail_exact tw md \<Longrightarrow> Fin tw / Fin md = Fin (tw / md)"
  unfolding tail_exact_def by (elim conjE) (rule Fin_divide)

lemma visible_value:
  assumes "visible_exact tw md s p obs"
  shows "Fin tw / Fin md
         + (1 - Fin tw)
           * exp_d (- (pow_d (Fin p - Fin obs) 2 / (Fin 2 * Fin s * Fin s)))
           / (sqrt_d (Fin 2 * M_PI) * Fin s)
       = Fin (tw / md
              + (1 - tw) * exp_fl (- ((p - obs) ^ 2 / (2 * s * s))) / (sqrt (2 * pi) * s))"
proof -
  from assms have s: "s \<noteq> 0" and t: "tail_exact tw md"
    by (simp_all add: visible_exact_def)
  from assms have h: "bounded (1 - tw)" "bounded (p - obs)"
     "safe ((p - obs) ^ 2)" "safe (2 * s)" "safe (2 * s * s)"
     "safe ((p - obs) ^ 2 / (2 * s * s))"
     "safe (exp_fl (- ((p - obs) ^ 2 / (2 * s * s))))"
     "safe ((1 - tw) * exp_fl (- ((p - obs) ^ 2 / (2 * s * s))))"
     "safe (sqrt (2 * pi) * s)"
     "safe ((1 - tw) * exp_fl (- ((p - obs) ^ 2 / (2 * s * s))) / (sqrt (2 * pi) * s))"
     "bounded (tw / md
                + (1 - tw) * exp_fl (- ((p - obs) ^ 2 / (2 * s * s))) / (sqrt (2 * pi) * s))"
    unfolding visible_exact_def by blast+
  have d1: "2 * s * s \<noteq> 0" using s by simp
  have d2: "sqrt (2 * pi) * s \<noteq> 0" using s by simp
  show ?thesis
    by (simp only: tail_value [OF t] one_minus_Fin Fin_minus pow_d_Fin Fin_times Fin_divide
          exp_d_Fin sqrt_two_pi_value Fin_plus uminus_scalar.simps h d1 d2 not_False_eq_True)
qed

lemma half_value: "safe (0.5 * r) \<Longrightarrow> Fin 0.5 * Fin r = Fin (0.5 * r)"
  by (rule Fin_times)



section \<open>The likelihood law without occlusion\<close>

lemma ln_2_ge_half: "1 / 2 \<le> ln (2::real)"
proof -
  have "ln (1 / 2 :: real) \<le> 1 / 2 - 1"
    by (rule ln_le_minus_one) simp
  then show ?thesis by (simp add: ln_div)
qed

lemma ln_2_le_one: "ln (2::real) \<le> 1"
  using ln_2_less_1 by simp

lemma sqrt_2pi_bounds: "2 \<le> sqrt (2 * pi)" "sqrt (2 * pi) \<le> 3"
proof -
  have "sqrt 4 \<le> sqrt (2 * pi)"
    using pi_ge_two by (intro real_sqrt_le_mono) simp
  then show "2 \<le> sqrt (2 * pi)" by simp
  have "sqrt (2 * pi) \<le> sqrt 9"
    using pi_less_4 by (intro real_sqrt_le_mono) simp
  then show "sqrt (2 * pi) \<le> 3" by simp
qed



lemma Probability_visible_finite:
  "Probability (Condition k (Fin q) False) x =
     tail_weight k / max_depth k
     + (1 - tail_weight k)
       * exp_d (- (pow_d (Fin q - x) 2
                   / (Fin 2 * (model_sigma k + sigma_factor k * x * x)
                        * (model_sigma k + sigma_factor k * x * x))))
       / (sqrt_d (Fin 2 * M_PI) * (model_sigma k + sigma_factor k * x * x))"
  by (simp add: Probability_def Condition_def Let_def)



lemma Probability_visible_finite_value:
  assumes f: "tail_weight k = Fin tw" "max_depth k = Fin md" "model_sigma k = Fin ms"
      "sigma_factor k = Fin sf"
    and s: "sigma_exact ms sf obs"
    and v: "visible_exact tw md (ms + sf * obs * obs) p obs"
  shows "Probability (Condition k (Fin p) False) (Fin obs) =
      Fin (tw / md
           + (1 - tw) * exp_fl (- ((p - obs) ^ 2 / (2 * (ms + sf * obs * obs) * (ms + sf * obs * obs))))
             / (sqrt (2 * pi) * (ms + sf * obs * obs)))"
  by (simp only: Probability_visible_finite f sigma_value [OF s] visible_value [OF v])

lemmas range_defs = round_range_def overflow_def overflow_threshold_def underflow_threshold_def









lemma exp_fl_eq: "x < - (1 / 2 ^ 54) \<or> 1 / 2 ^ 53 \<le> x \<Longrightarrow> exp_fl x = exp x"
  by (auto simp: exp_fl_def)























section \<open>The likelihood law with occlusion\<close>







lemma round_range_big: "2 ^ 1024 \<le> x \<Longrightarrow> round_range x = PInf"
proof -
  assume a: "2 ^ 1024 \<le> x"
  have "underflow_threshold < 2 ^ 1024" "overflow_threshold \<le> 2 ^ 1024"
    by (simp_all add: overflow_threshold_def underflow_threshold_def)
  with a have "\<not> \<bar>x\<bar> \<le> underflow_threshold" "overflow_threshold \<le> x"
    by linarith+
  then show ?thesis by (simp add: round_range_def overflow_def)
qed





section \<open>The constructor\<close>

lemma round_range_wide: "1 / 2 ^ 1010 \<le> \<bar>x\<bar> \<Longrightarrow> \<bar>x\<bar> \<le> 2 ^ 1010 \<Longrightarrow> round_range x = Fin x"
proof -
  assume a: "1 / 2 ^ 1010 \<le> \<bar>x\<bar>" "\<bar>x\<bar> \<le> 2 ^ 1010"
  have "underflow_threshold < 1 / 2 ^ 1010" "(2::real) ^ 1010 < overflow_threshold"
    by (simp_all add: overflow_threshold_def underflow_threshold_def)
  with a have "\<not> \<bar>x\<bar> \<le> underflow_threshold" "\<not> overflow_threshold \<le> x"
    "\<not> x \<le> - overflow_threshold"
    by linarith+
  then show ?thesis by (simp add: round_range_def overflow_def)
qed

lemma safe_ln_2: "safe (ln 2)"
  by (rule safe_between [of "1 / 2" _ 1]) (use ln_2_ge_half ln_2_le_one in simp_all)

lemma exp_d_minus_ln_2: "exp_d (Fin (- ln 2)) = Fin (1 / 2)"
proof -
  have "- ln (2::real) < - (1 / 2 ^ 54)"
    using ln_2_ge_half by simp
  then have "exp_fl (- ln 2) = exp (- ln 2)"
    by (simp add: exp_fl_eq)
  also have "\<dots> = 1 / 2"
    by (simp add: exp_minus inverse_eq_divide)
  finally show ?thesis
    by (simp add: range_defs)
qed

lemma rate_value:
  assumes "1 / 2 ^ 1000 \<le> h" "h \<le> 2 ^ 1000"
  shows "Fin (ln 2) / Fin h = Fin (ln 2 / h)"
proof -
  have h0: "0 < h"
    using assms(1) by (rule less_le_trans [rotated]) simp
  have lo: "1 / 2 / 2 ^ 1000 \<le> ln 2 / h"
    using assms h0 ln_2_ge_half by (intro frac_le) simp_all
  have hi: "ln 2 / h \<le> 1 / (1 / 2 ^ 1000)"
    using assms h0 ln_2_le_one by (intro frac_le) simp_all
  have p: "0 < ln 2 / h" using h0 by simp
  have "1 / 2 ^ 1010 \<le> \<bar>ln 2 / h\<bar>"
  proof -
    have "(1::real) / 2 ^ 1010 \<le> 1 / 2 / 2 ^ 1000" by simp
    with lo p show ?thesis by linarith
  qed
  moreover have "\<bar>ln 2 / h\<bar> \<le> 2 ^ 1010"
  proof -
    have "(1::real) / (1 / 2 ^ 1000) \<le> 2 ^ 1010" by simp
    with hi p show ?thesis by linarith
  qed
  ultimately have "round_range (ln 2 / h) = Fin (ln 2 / h)"
    by (rule round_range_wide)
  with h0 show ?thesis by simp
qed

lemma neg_log_half: "- log_d (Fin 0.5) = Fin (ln 2)"
  by (simp add: ln_div)

lemma init_value:
  "KinectObserver_init tw ms sf hl md uninit =
     Inr \<lparr> exponential_rate = Fin (ln 2) / hl, tail_weight = tw, model_sigma = ms,
           sigma_factor = sf, max_depth = md, prediction = fst uninit, occlusion = snd uninit \<rparr>"
  by (simp only: KinectObserver_init_def neg_log_half)

text \<open>
  C7, as amended. The constructor never fails, whatever its arguments are: it
  stores them, and sets \<open>exponential_rate\<close> to \<open>- log 0.5 / half_life_depth\<close>.
  For a half-life depth \<open>h\<close> between \<open>2^-1000\<close> and \<open>2^1000\<close> the rate is
  \<open>- ln 0.5 / h\<close>, it is positive, and \<open>exp (- exponential_rate * h) = 1 / 2\<close>.
\<close>

theorem C7_constructor_never_fails:
  "KinectObserver_init tw ms sf hl md uninit \<noteq> Inl ConfigurationError
   \<and> KinectObserver_init tw ms sf hl md uninit =
       Inr \<lparr> exponential_rate = Fin (ln 2) / hl, tail_weight = tw, model_sigma = ms,
             sigma_factor = sf, max_depth = md, prediction = fst uninit, occlusion = snd uninit \<rparr>
   \<and> (1 / 2 ^ 1000 \<le> h \<and> h \<le> 2 ^ 1000 \<longrightarrow>
        (\<exists>k. KinectObserver_init tw ms sf (Fin h) md uninit = Inr k
           \<and> exponential_rate k = Fin (- ln 0.5 / h)
           \<and> 0 < exponential_rate k
           \<and> exp_d (- (exponential_rate k * Fin h)) = Fin (1 / 2)))"
proof (intro conjI impI)
  show "KinectObserver_init tw ms sf hl md uninit \<noteq> Inl ConfigurationError"
    by (simp add: init_value)
  show "KinectObserver_init tw ms sf hl md uninit =
       Inr \<lparr> exponential_rate = Fin (ln 2) / hl, tail_weight = tw, model_sigma = ms,
             sigma_factor = sf, max_depth = md, prediction = fst uninit, occlusion = snd uninit \<rparr>"
    by (rule init_value)
  assume "1 / 2 ^ 1000 \<le> h \<and> h \<le> 2 ^ 1000"
  then have b: "1 / 2 ^ 1000 \<le> h" "h \<le> 2 ^ 1000"
    by simp_all
  have h0: "0 < h"
    using b(1) by (rule less_le_trans [rotated]) simp
  have r: "Fin (ln 2) / Fin h = Fin (ln 2 / h)"
    by (rule rate_value) (rule b)+
  have m: "Fin (ln 2 / h) * Fin h = Fin (ln 2)"
    using h0 safe_ln_2 by (simp add: round_range_safe)
  show "\<exists>k. KinectObserver_init tw ms sf (Fin h) md uninit = Inr k
           \<and> exponential_rate k = Fin (- ln 0.5 / h)
           \<and> 0 < exponential_rate k
           \<and> exp_d (- (exponential_rate k * Fin h)) = Fin (1 / 2)"
    using h0
    by (simp only: init_value r)
      (simp add: ln_div zero_scalar_def round_range_safe [OF safe_ln_2] exp_d_minus_ln_2
         del: exp_d.simps)
qed

theorem C7_constructor_never_fails_witness:
  "\<exists>k. KinectObserver_init (Fin 0.01) (Fin 0.003) (Fin 0.00142478) (Fin 2) (Fin 6.0) (NaN, False) = Inr k
       \<and> exponential_rate k = Fin (- ln 0.5 / 2)
       \<and> 0 < exponential_rate k
       \<and> exp_d (- (exponential_rate k * Fin 2)) = Fin (1 / 2)"
  using C7_constructor_never_fails [of "Fin 0.01" "Fin 0.003" "Fin 0.00142478" NaN "Fin 6.0" "(NaN, False)" 2, THEN conjunct2, THEN conjunct2]
  by simp

lemma default_rate: "Fin (ln 2) / Fin 1 = Fin (ln 2)"
  using safe_ln_2 by (simp add: round_range_safe)

lemma negative_rate: "Fin (ln 2) / Fin (- 1) = Fin (- ln 2)"
proof -
  have "safe (- ln 2)" using safe_ln_2 by (simp add: safe_def)
  then show ?thesis by (simp add: round_range_safe)
qed

lemma tiny_half_life_rate: "Fin (ln 2) / Fin (1 / 2 ^ 1030) = PInf"
proof -
  have "(2::real) ^ 1024 \<le> 1 / 2 * 2 ^ 1030" by simp
  also have "\<dots> \<le> ln 2 * 2 ^ 1030"
    using ln_2_ge_half by (intro mult_right_mono) simp_all
  finally have "round_range (ln 2 * 2 ^ 1030) = PInf"
    by (rule round_range_big)
  then show ?thesis by simp
qed

text \<open>
  The claim as stated fails: the constructor returns an object for a zero
  \<open>max_depth\<close>, a negative \<open>max_depth\<close>, a zero half-life depth (the rate is then
  plus infinity) and a negative half-life depth (the rate is then negative).
  For the positive half-life depth \<open>2^-1030\<close> the quotient overflows: the rate
  is plus infinity, not \<open>- ln 0.5 / h\<close>.
\<close>

theorem C7_counterexample:
  "KinectObserver_init (Fin 0.01) (Fin 0.003) (Fin 0.00142478) (Fin 1.0) (Fin 0) (NaN, False) =
     Inr \<lparr> exponential_rate = Fin (ln 2), tail_weight = Fin 0.01, model_sigma = Fin 0.003,
           sigma_factor = Fin 0.00142478, max_depth = Fin 0, prediction = NaN, occlusion = False \<rparr>
   \<and> KinectObserver_init (Fin 0.01) (Fin 0.003) (Fin 0.00142478) (Fin 1.0) (Fin (- 6.0)) (NaN, False) =
     Inr \<lparr> exponential_rate = Fin (ln 2), tail_weight = Fin 0.01, model_sigma = Fin 0.003,
           sigma_factor = Fin 0.00142478, max_depth = Fin (- 6.0), prediction = NaN, occlusion = False \<rparr>
   \<and> KinectObserver_init (Fin 0.01) (Fin 0.003) (Fin 0.00142478) (Fin 0) (Fin 6.0) (NaN, False) =
     Inr \<lparr> exponential_rate = PInf, tail_weight = Fin 0.01, model_sigma = Fin 0.003,
           sigma_factor = Fin 0.00142478, max_depth = Fin 6.0, prediction = NaN, occlusion = False \<rparr>
   \<and> KinectObserver_init (Fin 0.01) (Fin 0.003) (Fin 0.00142478) (Fin (- 1.0)) (Fin 6.0) (NaN, False) =
     Inr \<lparr> exponential_rate = Fin (- ln 2), tail_weight = Fin 0.01, model_sigma = Fin 0.003,
           sigma_factor = Fin 0.00142478, max_depth = Fin 6.0, prediction = NaN, occlusion = False \<rparr>
   \<and> KinectObserver_init (Fin 0.01) (Fin 0.003) (Fin 0.00142478) (Fin (1 / 2 ^ 1030)) (Fin 6.0) (NaN, False) =
     Inr \<lparr> exponential_rate = PInf, tail_weight = Fin 0.01, model_sigma = Fin 0.003,
           sigma_factor = Fin 0.00142478, max_depth = Fin 6.0, prediction = NaN, occlusion = False \<rparr>"
proof -
  have z: "Fin (ln 2) / Fin 0 = PInf"
    by simp
  have o: "Fin (ln 2) / Fin 1.0 = Fin (ln 2)"
    using default_rate by simp
  have n: "Fin (ln 2) / Fin (- 1.0) = Fin (- ln 2)"
    using negative_rate by simp
  show ?thesis
    by (simp only: init_value z o n tiny_half_life_rate fst_conv snd_conv simp_thms)
qed

section \<open>The infinite prediction and the example of the specification\<close>

text \<open>
  C2. After \<^verbatim>\<open>Condition(predicted_depth, false)\<close> with an infinite predicted
  depth (either infinity), \<^verbatim>\<open>Probability(obs)\<close> is exactly
  \<open>tail_weight / max_depth\<close>, whatever the observation is.
\<close>

theorem C2_visible_infinite_prediction:
  "Probability (Condition k PInf False) obs = tail_weight k / max_depth k
   \<and> Probability (Condition k NInf False) obs = tail_weight k / max_depth k"
  by (simp add: Probability_def Condition_def Let_def)

text \<open>
  C6. The object constructed with \<open>tail_weight = 0.01\<close>, \<open>model_sigma = 0.003\<close>,
  \<open>sigma_factor = 0.00142478\<close>, \<open>half_life_depth = 1.0\<close> and \<open>max_depth = 6.0\<close>,
  after \<^verbatim>\<open>Condition(2.0, false)\<close>, gives \<^verbatim>\<open>Probability(2.0)\<close> equal to
  \<open>0.01 / 6 + 0.99 * (1 / (sqrt (2 * pi) * sigma))\<close> with
  \<open>sigma = 0.003 + 0.00142478 * 4\<close>. No intermediate result is near the
  limits of the range of doubles, and the model does not round: the two are
  equal, which is within every tolerance.
\<close>

theorem C6_example:
  "\<exists>k. KinectObserver_init (Fin 0.01) (Fin 0.003) (Fin 0.00142478) (Fin 1.0) (Fin 6.0) uninit = Inr k
       \<and> Probability (Condition k (Fin 2.0) False) (Fin 2.0)
           = Fin (0.01 / 6 + 0.99 * (1 / (sqrt (2 * pi) * (0.003 + 0.00142478 * 4))))"
proof -
  let ?k = "\<lparr> exponential_rate = Fin (ln 2) / Fin 1.0, tail_weight = Fin 0.01,
             model_sigma = Fin 0.003, sigma_factor = Fin 0.00142478, max_depth = Fin 6.0,
             prediction = fst uninit, occlusion = snd uninit \<rparr>"
  define R :: real where "R = sqrt (2 * pi)"
  have r: "2 \<le> R" "R \<le> 3"
    unfolding R_def by (rule sqrt_2pi_bounds)+
  have s: "sigma_exact 0.003 0.00142478 2.0"
    by (simp add: sigma_exact_def safe_def bounded_def)
  define W :: real where "W = 12375000 / (R * 108739)"
  have w: "1 \<le> W" "W \<le> 100"
  proof -
    have "12375000 / (3 * 108739) \<le> 12375000 / (R * 108739)"
      using r by (intro divide_left_mono) simp_all
    then show "1 \<le> W" by (simp add: W_def)
    have "12375000 / (R * 108739) \<le> 12375000 / (2 * 108739)"
      using r by (intro divide_left_mono) simp_all
    then show "W \<le> 100" by (simp add: W_def)
  qed
  have v: "visible_exact 0.01 6.0 (0.003 + 0.00142478 * 2.0 * 2.0) 2.0 2.0"
    using r w
    by (simp add: visible_exact_def tail_exact_def exp_fl_def safe_def bounded_def
          R_def [symmetric] W_def [symmetric])
  have "Probability (Condition ?k (Fin 2.0) False) (Fin 2.0)
           = Fin (0.01 / 6 + 0.99 * (1 / (sqrt (2 * pi) * (0.003 + 0.00142478 * 4))))"
    using Probability_visible_finite_value [of ?k "0.01" "6.0" "0.003" "0.00142478" "2.0" "2.0", OF _ _ _ _ s v]
    by (simp add: exp_fl_def)
  then show ?thesis
    by (simp only: init_value) blast
qed

section \<open>The logarithm of the density\<close>

text \<open>
  C4, as amended. \<^verbatim>\<open>LogProbability(obs)\<close> never fails: it returns the
  logarithm, in the arithmetic of doubles, of \<^verbatim>\<open>Probability(obs)\<close>. That is the
  real logarithm of the density when the density is finite and positive,
  minus infinity when the density is zero, and not-a-number when the density
  is negative.
\<close>

theorem C4_LogProbability_never_fails:
  "LogProbability k obs = Inr (log_d (Probability k obs))
   \<and> LogProbability k obs \<noteq> Inl NumericalError
   \<and> (Probability k obs = Fin d \<and> 0 < d \<longrightarrow> LogProbability k obs = Inr (Fin (ln d)))
   \<and> (Probability k obs = Fin 0 \<longrightarrow> LogProbability k obs = Inr NInf)
   \<and> (Probability k obs = Fin d \<and> d < 0 \<longrightarrow> LogProbability k obs = Inr NaN)"
  by (simp add: LogProbability_def)

theorem C4_LogProbability_never_fails_witness:
  "LogProbability
     \<lparr> exponential_rate = Fin 1, tail_weight = Fin (1 / 2), model_sigma = Fin 1,
       sigma_factor = Fin 0, max_depth = Fin 2, prediction = PInf, occlusion = False \<rparr> (Fin 1)
   = Inr (Fin (ln (1 / 4)))
   \<and> LogProbability
     \<lparr> exponential_rate = Fin 1, tail_weight = Fin 0, model_sigma = Fin 1,
       sigma_factor = Fin 0, max_depth = Fin 2, prediction = PInf, occlusion = False \<rparr> (Fin 1)
   = Inr NInf
   \<and> LogProbability
     \<lparr> exponential_rate = Fin 1, tail_weight = Fin (- 1), model_sigma = Fin 1,
       sigma_factor = Fin 0, max_depth = Fin 2, prediction = PInf, occlusion = False \<rparr> (Fin 1)
   = Inr NaN"
proof -
  let ?k1 = "\<lparr> exponential_rate = Fin 1, tail_weight = Fin (1 / 2), model_sigma = Fin 1,
       sigma_factor = Fin 0, max_depth = Fin 2, prediction = PInf, occlusion = False \<rparr>"
  let ?k2 = "\<lparr> exponential_rate = Fin 1, tail_weight = Fin 0, model_sigma = Fin 1,
       sigma_factor = Fin 0, max_depth = Fin 2, prediction = PInf, occlusion = False \<rparr>"
  let ?k3 = "\<lparr> exponential_rate = Fin 1, tail_weight = Fin (- 1), model_sigma = Fin 1,
       sigma_factor = Fin 0, max_depth = Fin 2, prediction = PInf, occlusion = False \<rparr>"
  have p1: "Probability ?k1 (Fin 1) = Fin (1 / 4) \<and> (0::real) < 1 / 4"
    by (simp add: Probability_def Let_def range_defs)
  have p2: "Probability ?k2 (Fin 1) = Fin 0"
    by (simp add: Probability_def Let_def range_defs)
  have p3: "Probability ?k3 (Fin 1) = Fin (- 1 / 2) \<and> (- 1 / 2 :: real) < 0"
    by (simp add: Probability_def Let_def range_defs)
  from p1 C4_LogProbability_never_fails [of ?k1 "Fin 1" "1 / 4"]
  have "LogProbability ?k1 (Fin 1) = Inr (Fin (ln (1 / 4)))" by blast
  moreover from p2 C4_LogProbability_never_fails [of ?k2 "Fin 1" 0]
  have "LogProbability ?k2 (Fin 1) = Inr NInf" by blast
  moreover from p3 C4_LogProbability_never_fails [of ?k3 "Fin 1" "- 1 / 2"]
  have "LogProbability ?k3 (Fin 1) = Inr NaN" by blast
  ultimately show ?thesis by blast
qed

text \<open>
  The claim as stated fails: with \<open>tail_weight = 0\<close> (or \<open>- 1\<close>) and an infinite
  prediction without occlusion the density is zero (negative), and
  \<^verbatim>\<open>LogProbability\<close> returns minus infinity (not-a-number) instead of failing.
\<close>

theorem C4_counterexample:
  "Probability
     \<lparr> exponential_rate = Fin (ln 2), tail_weight = Fin 0, model_sigma = Fin 0.003,
       sigma_factor = Fin 0.00142478, max_depth = Fin 6, prediction = PInf, occlusion = False \<rparr>
     (Fin 1) \<le> 0
   \<and> LogProbability
     \<lparr> exponential_rate = Fin (ln 2), tail_weight = Fin 0, model_sigma = Fin 0.003,
       sigma_factor = Fin 0.00142478, max_depth = Fin 6, prediction = PInf, occlusion = False \<rparr>
     (Fin 1) = Inr NInf
   \<and> Probability
     \<lparr> exponential_rate = Fin (ln 2), tail_weight = Fin (- 1), model_sigma = Fin 0.003,
       sigma_factor = Fin 0.00142478, max_depth = Fin 6, prediction = PInf, occlusion = False \<rparr>
     (Fin 1) \<le> 0
   \<and> LogProbability
     \<lparr> exponential_rate = Fin (ln 2), tail_weight = Fin (- 1), model_sigma = Fin 0.003,
       sigma_factor = Fin 0.00142478, max_depth = Fin 6, prediction = PInf, occlusion = False \<rparr>
     (Fin 1) = Inr NaN"
  by (simp add: LogProbability_def Probability_def Let_def zero_scalar_def range_defs)

section \<open>The context is not consumed\<close>

lemma ask_all_eq: "ask_all k qs = (map (\<lambda>q. fst (ask k q)) qs, k)"
proof (induction qs)
  case Nil
  show ?case by simp
next
  case (Cons q qs)
  have same: "snd (ask k q) = k" by (cases q) simp_all
  show ?case by (simp add: case_prod_beta same Cons.IH)
qed

text \<open>
  C10. After \<^verbatim>\<open>Condition(prediction, occlusion)\<close>, any sequence of
  \<^verbatim>\<open>Probability\<close> and \<^verbatim>\<open>LogProbability\<close> calls leaves the object, and with it
  the stored prediction and occlusion flag, as \<^verbatim>\<open>Condition\<close> left it; \<open>n\<close>
  calls in a row with the same observation return \<open>n\<close> times the same value.
\<close>

theorem C10_context_not_consumed:
  "snd (ask_all (Condition k p occ) qs) = Condition k p occ
   \<and> prediction (snd (ask_all (Condition k p occ) qs)) = p
   \<and> occlusion (snd (ask_all (Condition k p occ) qs)) = occ
   \<and> fst (ask_all (Condition k p occ) (replicate n (Query_Probability obs)))
       = replicate n (Inr (Probability (Condition k p occ) obs))
   \<and> fst (ask_all (Condition k p occ) (replicate n (Query_LogProbability obs)))
       = replicate n (LogProbability (Condition k p occ) obs)"
  by (simp add: ask_all_eq Condition_def map_replicate_const)

section \<open>One joint filter per joint\<close>

lemma create_joint_filters_loop_eq:
  "create_joint_filters_loop b i fs =
     fs @ map (\<lambda>j. JointFilter (transition_builder b j) (sensor_builder b j))
            [i..num_joints (kinematics b) - 1]"
proof (induction b i fs rule: create_joint_filters_loop.induct)
  case (1 b i fs)
  show ?case
  proof (cases "i < num_joints (kinematics b)")
    case True
    then have "[i..num_joints (kinematics b) - 1] = i # [i + 1..num_joints (kinematics b) - 1]"
      by (simp add: upto_rec1)
    with True "1.IH" show ?thesis
      by (subst create_joint_filters_loop.simps) (simp add: Let_def)
  next
    case False
    then show ?thesis
      by (subst create_joint_filters_loop.simps) simp
  qed
qed

text \<open>
  C8. \<^verbatim>\<open>create_joint_filters\<close> returns one filter per joint index
  \<open>0, \<dots>, num_joints - 1\<close>, in this order: the vector has \<open>num_joints\<close>
  elements (none when the count is not positive), its \<open>i\<close>-th element is the
  filter made from \<^verbatim>\<open>transition_builder->build(i)\<close> and
  \<^verbatim>\<open>sensor_builder->build(i)\<close>, and \<^verbatim>\<open>build\<close> hands exactly this vector, with
  the kinematics, to the tracker.
\<close>

theorem C8_one_filter_per_joint:
  "create_joint_filters b =
     map (\<lambda>i. JointFilter (transition_builder b i) (sensor_builder b i))
       [0..num_joints (kinematics b) - 1]
   \<and> length (create_joint_filters b) = nat (num_joints (kinematics b))
   \<and> (0 \<le> i \<and> i < num_joints (kinematics b) \<longrightarrow>
        create_joint_filters b ! nat i = JointFilter (transition_builder b i) (sensor_builder b i))
   \<and> joint_filters (build b) = create_joint_filters b
   \<and> tracker_kinematics (build b) = kinematics b"
proof -
  have eq: "create_joint_filters b =
     map (\<lambda>i. JointFilter (transition_builder b i) (sensor_builder b i))
       [0..num_joints (kinematics b) - 1]"
    by (simp add: create_joint_filters_def create_joint_filters_loop_eq)
  have len: "length (create_joint_filters b) = nat (num_joints (kinematics b))"
    by (simp add: eq)
  have nth: "create_joint_filters b ! nat i = JointFilter (transition_builder b i) (sensor_builder b i)"
    if "0 \<le> i \<and> i < num_joints (kinematics b)"
    using that by (simp add: eq)
  show ?thesis
    using eq len nth by (simp add: build_def Let_def)
qed

theorem C8_one_filter_per_joint_witness:
  "length (create_joint_filters
      \<lparr> kinematics = \<lparr> num_joints = 2 \<rparr>, transition_builder = (\<lambda>i. i + 10),
        sensor_builder = (\<lambda>i. i + 20) \<rparr>) = 2
   \<and> create_joint_filters
      \<lparr> kinematics = \<lparr> num_joints = 2 \<rparr>, transition_builder = (\<lambda>i. i + 10),
        sensor_builder = (\<lambda>i. i + 20) \<rparr> ! 1 = JointFilter 11 21"
  using C8_one_filter_per_joint
    [of "\<lparr> kinematics = \<lparr> num_joints = 2 \<rparr>, transition_builder = (\<lambda>i. i + 10),
        sensor_builder = (\<lambda>i. i + 20) \<rparr>" 1]
  by simp

section \<open>The frame of \<^verbatim>\<open>animate\<close>\<close>

lemma animate_loop_correct:
  assumes "0 \<le> i" "i \<le> hi" "nat hi \<le> length (h current)" "nat hi \<le> length (h next)"
  shows "\<exists>h'. animate_loop t1 current dt dilation next i hi h = Inr h'
     \<and> (\<forall>r. r \<noteq> next \<longrightarrow> h' r = h r)
     \<and> length (h' next) = length (h next)
     \<and> (\<forall>j < length (h next). h' next ! j =
           (if nat i \<le> j \<and> j < nat hi
            then h current ! j + Fin 0.1 * dt / dilation * sin_d (t1 / dilation)
            else h next ! j))"
  using assms
proof (induction t1 current dt dilation "next" i hi h rule: animate_loop.induct)
  case (1 t1 current dt dilation "next" i hi h)
  let ?d = "Fin 0.1 * dt / dilation * sin_d (t1 / dilation)"
  show ?case
  proof (cases "i < hi")
    case False
    with "1.prems" have "i = hi" by simp
    then show ?thesis
      by (subst animate_loop.simps) auto
  next
    case True
    let ?h1 = "h (next := (h next) [nat i := h current ! nat i + ?d])"
    from True "1.prems" have inr: "0 \<le> i \<and> nat i < length (h current) \<and> nat i < length (h next)"
      by auto
    have len1: "length (?h1 current) = length (h current)" "length (?h1 next) = length (h next)"
      by auto
    have pre: "0 \<le> i + 1" "i + 1 \<le> hi" "nat hi \<le> length (?h1 current)"
      "nat hi \<le> length (?h1 next)"
      using True "1.prems" by simp_all
    from "1.IH" [OF True inr pre]
    obtain h' where run: "animate_loop t1 current dt dilation next (i + 1) hi ?h1 = Inr h'"
      and frame: "\<forall>r. r \<noteq> next \<longrightarrow> h' r = ?h1 r"
      and len: "length (h' next) = length (?h1 next)"
      and upd: "\<forall>j < length (?h1 next). h' next ! j =
           (if nat (i + 1) \<le> j \<and> j < nat hi then ?h1 current ! j + ?d else ?h1 next ! j)"
      by blast
    have step: "animate_loop t1 current dt dilation next i hi h = Inr h'"
      using True inr run by (subst animate_loop.simps) simp
    have f2: "\<forall>r. r \<noteq> next \<longrightarrow> h' r = h r"
      using frame by simp
    have l2: "length (h' next) = length (h next)"
      using len by simp
    have u2: "h' next ! j = (if nat i \<le> j \<and> j < nat hi then h current ! j + ?d else h next ! j)"
      if j: "j < length (h next)" for j
    proof -
      from upd j have e: "h' next ! j =
           (if nat (i + 1) \<le> j \<and> j < nat hi then ?h1 current ! j + ?d else ?h1 next ! j)"
        by simp
      have ni: "nat (i + 1) = nat i + 1" using inr by (simp add: nat_add_distrib)
      show ?thesis
      proof (cases "j = nat i")
        case True
        with e ni inr \<open>i < hi\<close> show ?thesis by simp
      next
        case False
        then have c: "?h1 current ! j = h current ! j" by (cases "current = next") simp_all
        from False have n: "?h1 next ! j = h next ! j" by simp
        from False e ni c n show ?thesis by auto
      qed
    qed
    from step f2 l2 u2 show ?thesis by blast
  qed
qed

text \<open>
  C9. When \<^verbatim>\<open>current\<close> and \<^verbatim>\<open>next\<close> have at least 28 coefficients (they may be
  the same vector), \<^verbatim>\<open>animate\<close> returns, adds \<open>dt\<close> to the member \<open>t\<close>, leaves
  every other vector of the store and the size of \<^verbatim>\<open>next\<close> as they are, and
  changes of \<^verbatim>\<open>next\<close> the coefficients 6 to 12 and 21 to 27 only: each of them
  becomes \<open>current[i] + 0.1 * dt / dilation * sin (t / dilation)\<close>, with \<open>t\<close>
  the time that includes \<open>dt\<close>, the same increment for both arms.
\<close>

theorem C9_animate_frame:
  assumes "28 \<le> length (h current)" "28 \<le> length (h next)"
  shows "\<exists>h'. animate a h current dt dilation next = Inr (a \<lparr> t := t a + dt \<rparr>, h')
     \<and> (\<forall>r. r \<noteq> next \<longrightarrow> h' r = h r)
     \<and> length (h' next) = length (h next)
     \<and> (\<forall>j < length (h next). h' next ! j =
           (if (6 \<le> j \<and> j \<le> 12) \<or> (21 \<le> j \<and> j \<le> 27)
            then h current ! j + Fin 0.1 * dt / dilation * sin_d ((t a + dt) / dilation)
            else h next ! j))"
proof -
  let ?t1 = "t a + dt"
  let ?d = "Fin 0.1 * dt / dilation * sin_d (?t1 / dilation)"
  from assms animate_loop_correct [of 6 13 h current "next" ?t1 dt dilation]
  obtain h1 where run1: "animate_loop ?t1 current dt dilation next 6 13 h = Inr h1"
    and frame1: "\<forall>r. r \<noteq> next \<longrightarrow> h1 r = h r"
    and len1: "length (h1 next) = length (h next)"
    and upd1: "\<forall>j < length (h next). h1 next ! j =
           (if 6 \<le> j \<and> j < 13 then h current ! j + ?d else h next ! j)"
    by auto
  have lenc: "length (h1 current) = length (h current)"
    using frame1 len1 by (cases "current = next") simp_all
  from assms len1 lenc animate_loop_correct [of 21 28 h1 current "next" ?t1 dt dilation]
  obtain h2 where run2: "animate_loop ?t1 current dt dilation next 21 28 h1 = Inr h2"
    and frame2: "\<forall>r. r \<noteq> next \<longrightarrow> h2 r = h1 r"
    and len2: "length (h2 next) = length (h1 next)"
    and upd2: "\<forall>j < length (h1 next). h2 next ! j =
           (if 21 \<le> j \<and> j < 28 then h1 current ! j + ?d else h1 next ! j)"
    by auto
  have res: "animate a h current dt dilation next = Inr (a \<lparr> t := t a + dt \<rparr>, h2)"
    using run1 run2 by (simp add: animate_def Let_def)
  have f: "\<forall>r. r \<noteq> next \<longrightarrow> h2 r = h r"
    using frame1 frame2 by simp
  have l: "length (h2 next) = length (h next)"
    using len1 len2 by simp
  have u: "h2 next ! j =
           (if (6 \<le> j \<and> j \<le> 12) \<or> (21 \<le> j \<and> j \<le> 27) then h current ! j + ?d else h next ! j)"
    if j: "j < length (h next)" for j
  proof -
    from upd1 j have e1: "h1 next ! j =
           (if 6 \<le> j \<and> j < 13 then h current ! j + ?d else h next ! j)"
      by simp
    from upd2 j len1 have e2: "h2 next ! j =
           (if 21 \<le> j \<and> j < 28 then h1 current ! j + ?d else h1 next ! j)"
      by simp
    have c: "h1 current ! j = h current ! j" if "21 \<le> j"
    proof (cases "current = next")
      case True
      with e1 that show ?thesis by simp
    next
      case False
      with frame1 show ?thesis by simp
    qed
    show ?thesis
    proof (cases "21 \<le> j \<and> j < 28")
      case True
      with e2 c show ?thesis by simp
    next
      case False
      with e1 e2 show ?thesis by auto
    qed
  qed
  from res f l u show ?thesis by blast
qed

lemma sin_1_bounds: "1 / 2 \<le> sin (1::real)" "sin (1::real) \<le> 1"
proof -
  have "sin (pi / 6) \<le> sin (1::real)"
    using pi_ge_two pi_less_4 by (intro sin_monotone_2pi_le) simp_all
  then show "1 / 2 \<le> sin (1::real)" by (simp add: sin_30)
  show "sin (1::real) \<le> 1" by simp
qed

theorem C9_animate_frame_witness:
  "\<exists>h'. animate \<lparr> t = Fin 0 \<rparr> (\<lambda>r. replicate 28 (Fin 2)) 0 (Fin 1) (Fin 1) 0
          = Inr (\<lparr> t = Fin 1 \<rparr>, h')
     \<and> h' 0 ! 5 = Fin 2
     \<and> h' 0 ! 6 = Fin (2 + sin 1 / 10)
     \<and> h' 0 ! 27 = Fin (2 + sin 1 / 10)"
proof -
  define S :: real where "S = sin 1"
  have sb: "1 / 2 \<le> S" "S \<le> 1"
    unfolding S_def by (rule sin_1_bounds)+
  have t1: "Fin 0 + Fin 1 = Fin 1"
    by (simp add: range_defs)
  have a: "Fin 1 / Fin 1 = Fin 1"
    by (simp add: range_defs)
  have b: "Fin 0.1 * Fin 1 = Fin 0.1"
    by (simp add: range_defs)
  have c: "Fin 0.1 / Fin 1 = Fin 0.1"
    by (simp add: range_defs)
  have d: "Fin 0.1 * Fin S = Fin (0.1 * S)"
    by (rule Fin_times, rule safe_between [of "1 / 20" _ 1]) (use sb in simp_all)
  have e: "Fin 2 + Fin (0.1 * S) = Fin (2 + S / 10)"
  proof -
    have "bounded (2 + 0.1 * S)"
      using sb by (simp add: bounded_def abs_if)
    then have "Fin 2 + Fin (0.1 * S) = Fin (2 + 0.1 * S)"
      by (rule Fin_plus)
    also have "2 + 0.1 * S = 2 + S / 10"
      by simp
    finally show ?thesis .
  qed
  have inc: "Fin 2 + Fin 0.1 * Fin 1 / Fin 1 * sin_d ((Fin 0 + Fin 1) / Fin 1) = Fin (2 + sin 1 / 10)"
    by (simp only: t1 a b c sin_d.simps S_def [symmetric] d e)
  from C9_animate_frame [of "\<lambda>r. replicate 28 (Fin 2)" 0 0 "\<lparr> t = Fin 0 \<rparr>" "Fin 1" "Fin 1"]
  obtain h' where run: "animate \<lparr> t = Fin 0 \<rparr> (\<lambda>r. replicate 28 (Fin 2)) 0 (Fin 1) (Fin 1) 0
          = Inr (\<lparr> t = Fin 0 + Fin 1 \<rparr>, h')"
    and upd: "\<forall>j < 28. h' 0 ! j =
           (if (6 \<le> j \<and> j \<le> 12) \<or> (21 \<le> j \<and> j \<le> 27)
            then replicate 28 (Fin 2) ! j + Fin 0.1 * Fin 1 / Fin 1 * sin_d ((Fin 0 + Fin 1) / Fin 1)
            else replicate 28 (Fin 2) ! j)"
    by auto
  from upd have "h' 0 ! 5 = Fin 2" "h' 0 ! 6 = Fin (2 + sin 1 / 10)" "h' 0 ! 27 = Fin (2 + sin 1 / 10)"
    by (simp_all add: inc del: plus_scalar.simps times_scalar.simps divide_scalar.simps sin_d.simps)
  with run t1 show ?thesis by auto
qed

section \<open>Sign of the density\<close>


































end
